theory Spec2Isabelle
  imports Complex_Main "HOL-Library.Word" "HOL-Library.Log_Nat"
begin

unbundle bit_operations_syntax

section \<open>JavaScript values used by \<open>scripts/swig-client.ts\<close>\<close>

text \<open>
  A JavaScript string is a sequence of 16-bit code units. String literals of the
  source are written \<open>js ''...''\<close>.
\<close>

type_synonym js_string = "16 word list"

definition js :: "string \<Rightarrow> js_string" where
  "js s = map of_char s"

text \<open>
  A JavaScript number is an IEEE 754 binary64 value: not-a-number, the two infinities,
  negative zero, or a finite value, held as the rational it denotes (\<open>Finite 0\<close> is
  positive zero).
\<close>

datatype js_number = NaN | PosInfinity | NegInfinity | NegZero | Finite rat

datatype error =
    RangeError
  | SOLANA_ERROR__ADDRESSES__STRING_LENGTH_OUT_OF_RANGE
  | SOLANA_ERROR__ADDRESSES__INVALID_BYTE_LENGTH
  | SOLANA_ERROR__CODECS__INVALID_STRING_FOR_BASE
  | TransportError js_string

subsection \<open>Rounding to binary64\<close>

text \<open>\<open>ilog2 a\<close> is the integer part of the binary logarithm of a positive rational.\<close>

definition ilog2 :: "rat \<Rightarrow> int" where
  "ilog2 a =
     (if 1 \<le> a then int (floorlog 2 (nat \<lfloor>a\<rfloor>)) - 1
      else - int (floorlog 2 (nat (\<lceil>1 / a\<rceil> - 1))))"

definition round_half_even :: "rat \<Rightarrow> int" where
  "round_half_even x =
     (let f = \<lfloor>x\<rfloor>; d = x - of_int f
      in if d < 1 / 2 then f
         else if 1 / 2 < d then f + 1
         else if even f then f else f + 1)"

text \<open>
  Round to nearest, ties to even, with 53 significant bits, gradual underflow below
  \<open>2 powi (-1022)\<close> and overflow to infinity from \<open>2 powi 1024\<close>.
\<close>

definition round_double :: "rat \<Rightarrow> js_number" where
  "round_double r =
     (if r = 0 then Finite 0
      else
        let a = \<bar>r\<bar>;
            e = max (ilog2 a) (- 1022);
            q = 2 powi (e - 52);
            m = of_int (round_half_even (a / q)) * q
        in if 2 powi 1024 \<le> m then (if r < 0 then NegInfinity else PosInfinity)
           else if m = 0 then (if r < 0 then NegZero else Finite 0)
           else Finite (if r < 0 then - m else m))"

definition js_number_of :: "bool \<Rightarrow> rat \<Rightarrow> js_number" where
  "js_number_of neg mv =
     (if mv = 0 then (if neg then NegZero else Finite 0)
      else round_double (if neg then - mv else mv))"

subsection \<open>Arithmetic, \<open>Math.floor\<close> and \<open>BigInt\<close>\<close>

fun sign_bit :: "js_number \<Rightarrow> bool" where
  "sign_bit NegInfinity = True"
| "sign_bit NegZero = True"
| "sign_bit (Finite r) = (r < 0)"
| "sign_bit _ = False"

fun is_infinite :: "js_number \<Rightarrow> bool" where
  "is_infinite PosInfinity = True"
| "is_infinite NegInfinity = True"
| "is_infinite _ = False"

fun value_of :: "js_number \<Rightarrow> rat" where
  "value_of (Finite r) = r"
| "value_of _ = 0"

definition is_zero :: "js_number \<Rightarrow> bool" where
  "is_zero x \<longleftrightarrow> x = NegZero \<or> x = Finite 0"

text \<open>The \<open>*\<close> operator on numbers.\<close>

definition js_times :: "js_number \<Rightarrow> js_number \<Rightarrow> js_number" where
  "js_times x y =
     (if x = NaN \<or> y = NaN then NaN
      else if is_infinite x \<or> is_infinite y then
        (if is_zero x \<or> is_zero y then NaN
         else if sign_bit x \<noteq> sign_bit y then NegInfinity else PosInfinity)
      else
        let p = value_of x * value_of y
        in if p = 0 then (if sign_bit x \<noteq> sign_bit y then NegZero else Finite 0)
           else round_double p)"

fun Math_floor :: "js_number \<Rightarrow> js_number" where
  "Math_floor (Finite r) = Finite (of_int \<lfloor>r\<rfloor>)"
| "Math_floor x = x"

text \<open>\<open>BigInt(number)\<close> throws a RangeError unless the number is integral.\<close>

fun BigInt :: "js_number \<Rightarrow> error + int" where
  "BigInt (Finite r) = (if of_int \<lfloor>r\<rfloor> = r then Inr \<lfloor>r\<rfloor> else Inl RangeError)"
| "BigInt NegZero = Inr 0"
| "BigInt _ = Inl RangeError"

subsection \<open>\<open>parseFloat\<close> and \<open>parseInt\<close>\<close>

definition is_js_whitespace :: "16 word \<Rightarrow> bool" where
  "is_js_whitespace c \<longleftrightarrow>
     c \<in> {0x9, 0xA, 0xB, 0xC, 0xD, 0x20, 0xA0, 0x1680, 0x2028, 0x2029, 0x202F,
          0x205F, 0x3000, 0xFEFF} \<or> (0x2000 \<le> c \<and> c \<le> 0x200A)"

definition is_digit :: "16 word \<Rightarrow> bool" where
  "is_digit c \<longleftrightarrow> 0x30 \<le> c \<and> c \<le> 0x39"

definition is_hex_digit :: "16 word \<Rightarrow> bool" where
  "is_hex_digit c \<longleftrightarrow>
     is_digit c \<or> (0x41 \<le> c \<and> c \<le> 0x46) \<or> (0x61 \<le> c \<and> c \<le> 0x66)"

definition hex_digit_value :: "16 word \<Rightarrow> nat" where
  "hex_digit_value c =
     (if is_digit c then unat c - 48
      else if 0x41 \<le> c \<and> c \<le> 0x46 then unat c - 55
      else unat c - 87)"

definition digits_value :: "js_string \<Rightarrow> nat" where
  "digits_value ds = foldl (\<lambda>acc c. 10 * acc + (unat c - 48)) 0 ds"

definition hex_value :: "js_string \<Rightarrow> nat" where
  "hex_value ds = foldl (\<lambda>acc c. 16 * acc + hex_digit_value c) 0 ds"

text \<open>An optional leading sign: whether it is a minus, and the rest.\<close>

fun strip_sign :: "js_string \<Rightarrow> bool \<times> js_string" where
  "strip_sign [] = (False, [])"
| "strip_sign (c # cs) =
     (if c = 0x2D then (True, cs) else if c = 0x2B then (False, cs) else (False, c # cs))"

text \<open>
  The value of an exponent part (\<open>e\<close> or \<open>E\<close>, an optional sign, at least one digit) at
  the start of a string; zero when there is none.
\<close>

fun exponent_part :: "js_string \<Rightarrow> int" where
  "exponent_part [] = 0"
| "exponent_part (c # cs) =
     (if c = 0x65 \<or> c = 0x45 then
        (case strip_sign cs of (neg, r) \<Rightarrow>
           let ds = takeWhile is_digit r
           in if ds = [] then 0
              else if neg then - int (digits_value ds) else int (digits_value ds))
      else 0)"

text \<open>
  \<open>parseFloat\<close>: leading white space is dropped, the longest prefix that is a decimal
  literal is read, and anything after it is ignored; no such prefix gives NaN.
\<close>

definition parseFloat :: "js_string \<Rightarrow> js_number" where
  "parseFloat string =
     (case strip_sign (dropWhile is_js_whitespace string) of (neg, s) \<Rightarrow>
        if take 8 s = js ''Infinity'' then (if neg then NegInfinity else PosInfinity)
        else
          let ip = takeWhile is_digit s;
              r1 = dropWhile is_digit s;
              dot = (case r1 of [] \<Rightarrow> False | c # _ \<Rightarrow> c = 0x2E);
              fp = (if dot then takeWhile is_digit (drop 1 r1) else []);
              r2 = (if dot then dropWhile is_digit (drop 1 r1) else r1)
          in if ip = [] \<and> fp = [] then NaN
             else js_number_of neg
                    (of_nat (digits_value (ip @ fp)) *
                     10 powi (exponent_part r2 - int (length fp))))"

text \<open>\<open>parseInt\<close> with no radix argument: decimal, or hexadecimal after \<open>0x\<close>.\<close>

definition parseInt :: "js_string \<Rightarrow> js_number" where
  "parseInt string =
     (case strip_sign (dropWhile is_js_whitespace string) of (neg, s) \<Rightarrow>
        let hex = (take 2 s = js ''0x'' \<or> take 2 s = js ''0X'');
            z = (if hex then takeWhile is_hex_digit (drop 2 s) else takeWhile is_digit s)
        in if z = [] then NaN
           else js_number_of neg (of_nat (if hex then hex_value z else digits_value z)))"

subsection \<open>Strings: \<open>split\<close>, indexing, \<open>||\<close>\<close>

text \<open>\<open>s.split(sep)\<close> for a separator of one code unit; the result is never empty.\<close>

fun js_split :: "16 word \<Rightarrow> js_string \<Rightarrow> js_string list" where
  "js_split sep [] = [[]]"
| "js_split sep (c # cs) =
     (if c = sep then [] # js_split sep cs
      else (case js_split sep cs of [] \<Rightarrow> [[c]] | p # ps \<Rightarrow> (c # p) # ps))"

text \<open>\<open>xs[i]\<close>: reading past the end of an array gives \<open>undefined\<close>, here \<open>None\<close>.\<close>

fun nth_opt :: "'a list \<Rightarrow> nat \<Rightarrow> 'a option" where
  "nth_opt [] i = None"
| "nth_opt (x # xs) 0 = Some x"
| "nth_opt (x # xs) (Suc i) = nth_opt xs i"

text \<open>\<open>v || d\<close> on a possibly undefined string: \<open>undefined\<close> and the empty string are falsy.\<close>

fun or_default :: "js_string option \<Rightarrow> js_string \<Rightarrow> js_string" where
  "or_default None d = d"
| "or_default (Some s) d = (if s = [] then d else s)"

subsection \<open>\<open>address\<close> of @solana/kit\<close>

text \<open>
  \<open>address(s)\<close> returns \<open>s\<close> when it is the base58 form of 32 bytes and throws otherwise:
  the length must be between 32 and 44, every character must be of the base58 alphabet,
  and the decoded value (one zero byte per leading \<open>1\<close>, then the big-endian bytes of the
  number the rest denotes) must be 32 bytes long.
\<close>

type_synonym Address = js_string

definition base58_alphabet :: js_string where
  "base58_alphabet = js ''123456789ABCDEFGHJKLMNPQRSTUVWXYZabcdefghijkmnopqrstuvwxyz''"

fun index_of :: "'a \<Rightarrow> 'a list \<Rightarrow> nat" where
  "index_of x [] = 0"
| "index_of x (y # ys) = (if x = y then 0 else Suc (index_of x ys))"

definition base58_value :: "js_string \<Rightarrow> nat" where
  "base58_value s = foldl (\<lambda>acc c. 58 * acc + index_of c base58_alphabet) 0 s"

definition base58_byteLength :: "js_string \<Rightarrow> nat" where
  "base58_byteLength s =
     length (takeWhile (\<lambda>c. c = 0x31) s) +
     floorlog 256 (base58_value (dropWhile (\<lambda>c. c = 0x31) s))"

definition address :: "js_string \<Rightarrow> error + Address" where
  "address putativeAddress =
     (if length putativeAddress < 32 \<or> 44 < length putativeAddress
        then Inl SOLANA_ERROR__ADDRESSES__STRING_LENGTH_OUT_OF_RANGE
      else if \<not> list_all (\<lambda>c. c \<in> set base58_alphabet) putativeAddress
        then Inl SOLANA_ERROR__CODECS__INVALID_STRING_FOR_BASE
      else if base58_byteLength putativeAddress \<noteq> 32
        then Inl SOLANA_ERROR__ADDRESSES__INVALID_BYTE_LENGTH
      else Inr putativeAddress)"

section \<open>Actions and \<open>parsePermission\<close>\<close>

text \<open>
  The interface \<open>Action\<close>: a type tag and four optional parameters. The tag is declared
  as \<open>ActionType\<close>, a union of nineteen string literals, which exists at compile time
  only: at run time the field holds whatever string was put there.
\<close>

record Action =
  type :: js_string
  amount :: "int option"
  window :: "js_number option"
  programId :: "Address option"
  destination :: "Address option"

definition ActionType :: "js_string list" where
  "ActionType =
     [js ''All'', js ''AllButManageAuthority'', js ''ManageAuthority'',
      js ''SolLimit'', js ''SolRecurringLimit'', js ''SolDestinationLimit'',
      js ''SolRecurringDestinationLimit'',
      js ''TokenLimit'', js ''TokenRecurringLimit'', js ''TokenDestinationLimit'',
      js ''TokenRecurringDestinationLimit'',
      js ''Program'', js ''ProgramAll'', js ''ProgramCurated'', js ''ProgramScope'',
      js ''SubAccount'', js ''StakeLimit'', js ''StakeRecurringLimit'', js ''StakeAll'']"

text \<open>The case labels of the \<open>switch\<close> in \<open>parsePermission\<close>, group by group.\<close>

definition limit_kinds :: "js_string list" where
  "limit_kinds = [js ''SolLimit'', js ''TokenLimit'', js ''StakeLimit'']"

definition recurring_kinds :: "js_string list" where
  "recurring_kinds =
     [js ''SolRecurringLimit'', js ''TokenRecurringLimit'', js ''StakeRecurringLimit'']"

definition destination_kinds :: "js_string list" where
  "destination_kinds = [js ''SolDestinationLimit'', js ''TokenDestinationLimit'']"

definition system_program :: js_string where
  "system_program = js ''11111111111111111111111111111111''"

text \<open>The expression \<open>BigInt(Math.floor(parseFloat(s) * 1e9))\<close>, which the source
  writes out in three places.\<close>

definition lamports_of :: "js_string \<Rightarrow> error + int" where
  "lamports_of s = BigInt (Math_floor (js_times (parseFloat s) (Finite 1000000000)))"

text \<open>
  \<open>parsePermission\<close>. The properties of each object literal are evaluated in the order
  they are written, so in the destination case a bad address throws before a bad amount.
\<close>

definition parsePermission :: "js_string \<Rightarrow> error + Action" where
  "parsePermission permission =
     (let parts = js_split 0x3A permission;
          ty = hd parts
      in if ty \<in> set limit_kinds then
           (case lamports_of (or_default (nth_opt parts 1) (js ''0'')) of
              Inl e \<Rightarrow> Inl e
            | Inr a \<Rightarrow>
                Inr \<lparr>type = ty, amount = Some a, window = None, programId = None,
                     destination = None\<rparr>)
         else if ty \<in> set recurring_kinds then
           (case lamports_of (or_default (nth_opt parts 1) (js ''0'')) of
              Inl e \<Rightarrow> Inl e
            | Inr a \<Rightarrow>
                Inr \<lparr>type = ty, amount = Some a,
                     window = Some (parseInt (or_default (nth_opt parts 2) (js ''86400''))),
                     programId = None, destination = None\<rparr>)
         else if ty \<in> set destination_kinds then
           (case address (or_default (nth_opt parts 1) system_program) of
              Inl e \<Rightarrow> Inl e
            | Inr d \<Rightarrow>
                (case lamports_of (or_default (nth_opt parts 2) (js ''0'')) of
                   Inl e \<Rightarrow> Inl e
                 | Inr a \<Rightarrow>
                     Inr \<lparr>type = ty, amount = Some a, window = None, programId = None,
                          destination = Some d\<rparr>))
         else if ty = js ''Program'' then
           (case address (or_default (nth_opt parts 1) system_program) of
              Inl e \<Rightarrow> Inl e
            | Inr p \<Rightarrow>
                Inr \<lparr>type = ty, amount = None, window = None, programId = Some p,
                     destination = None\<rparr>)
         else
           Inr \<lparr>type = ty, amount = None, window = None, programId = None,
                destination = None\<rparr>)"

text \<open>The kind field of a permission string: the text before the first colon.\<close>

definition kind_field :: "js_string \<Rightarrow> js_string" where
  "kind_field permission = takeWhile (\<lambda>c. c \<noteq> 0x3A) permission"

text \<open>A parameter field is omitted when it is absent or empty.\<close>

definition param :: "js_string \<Rightarrow> nat \<Rightarrow> js_string option" where
  "param permission i = nth_opt (js_split 0x3A permission) i"

fun omitted :: "js_string option \<Rightarrow> bool" where
  "omitted None = True"
| "omitted (Some s) = (s = [])"

text \<open>An action that carries its type tag and nothing else.\<close>

definition bare :: "js_string \<Rightarrow> Action" where
  "bare ty =
     \<lparr>type = ty, amount = None, window = None, programId = None, destination = None\<rparr>"

section \<open>The client\<close>

subsection \<open>The program address constant\<close>

text \<open>
  The module binds \<open>SWIG_PROGRAM_ID\<close> to \<open>address("SWiGsrbFun...")\<close>. The eleventh
  character of that literal is the code unit \<open>0x5340\<close>, which is not a base58 digit.
\<close>

definition SWIG_PROGRAM_ID :: js_string where
  "SWIG_PROGRAM_ID = js ''SWiGsrbFun'' @ [0x5340] @ js ''Kt4gRMJbRvbuPBmR2jL3wfJLvboKuPk5''"

subsection \<open>\<open>getWalletInfo\<close>\<close>

text \<open>
  What the RPC node reports for an account. \<open>getAccountInfo(...).send()\<close> resolves to
  an object whose \<open>value\<close> is such a record, or \<open>null\<close> when there is no account at the
  address; the request itself can fail.
\<close>

record AccountInfo =
  account_lamports :: int
  account_data :: js_string
  account_owner :: Address
  account_executable :: bool

type_synonym getAccountInfo = "Address \<Rightarrow> error + AccountInfo option"

record WalletInfo =
  exists :: bool
  roles :: nat
  lamports :: int

definition getWalletInfo :: "getAccountInfo \<Rightarrow> Address \<Rightarrow> error + WalletInfo" where
  "getWalletInfo rpc configAddress =
     (case rpc configAddress of
        Inl e \<Rightarrow> Inl e
      | Inr None \<Rightarrow> Inr \<lparr>exists = False, roles = 0, lamports = 0\<rparr>
      | Inr (Some accountInfo) \<Rightarrow>
          Inr \<lparr>exists = True, roles = 0, lamports = account_lamports accountInfo\<rparr>)"

subsection \<open>\<open>createWallet\<close>\<close>

text \<open>\<open>s.padEnd(n, c)\<close> for a fill string of one code unit.\<close>

definition padEnd :: "js_string \<Rightarrow> nat \<Rightarrow> 16 word \<Rightarrow> js_string" where
  "padEnd s n c = s @ replicate (n - length s) c"

text \<open>
  \<open>new TextEncoder().encode(s)\<close>: the UTF-8 bytes of the string. A high surrogate followed
  by a low one is one code point above \<open>0xFFFF\<close>; a surrogate on its own is replaced by
  \<open>0xFFFD\<close>.
\<close>

definition is_high_surrogate :: "16 word \<Rightarrow> bool" where
  "is_high_surrogate c \<longleftrightarrow> 0xD800 \<le> c \<and> c \<le> 0xDBFF"

definition is_low_surrogate :: "16 word \<Rightarrow> bool" where
  "is_low_surrogate c \<longleftrightarrow> 0xDC00 \<le> c \<and> c \<le> 0xDFFF"

definition utf8_of_code_point :: "nat \<Rightarrow> 8 word list" where
  "utf8_of_code_point cp =
     (if cp < 0x80 then [of_nat cp]
      else if cp < 0x800 then [of_nat (0xC0 + cp div 64), of_nat (0x80 + cp mod 64)]
      else if cp < 0x10000 then
        [of_nat (0xE0 + cp div 4096), of_nat (0x80 + cp div 64 mod 64),
         of_nat (0x80 + cp mod 64)]
      else
        [of_nat (0xF0 + cp div 262144), of_nat (0x80 + cp div 4096 mod 64),
         of_nat (0x80 + cp div 64 mod 64), of_nat (0x80 + cp mod 64)])"

definition code_point_of_unit :: "16 word \<Rightarrow> nat" where
  "code_point_of_unit c =
     (if is_high_surrogate c \<or> is_low_surrogate c then 0xFFFD else unat c)"

fun utf8_encode :: "js_string \<Rightarrow> 8 word list" where
  "utf8_encode [] = []"
| "utf8_encode [c] = utf8_of_code_point (code_point_of_unit c)"
| "utf8_encode (c # d # ds) =
     (if is_high_surrogate c \<and> is_low_surrogate d then
        utf8_of_code_point (0x10000 + (unat c - 0xD800) * 0x400 + (unat d - 0xDC00)) @
        utf8_encode ds
      else utf8_of_code_point (code_point_of_unit c) @ utf8_encode (d # ds))"

text \<open>
  \<open>target.set(source)\<close> on byte arrays copies the source to the start of the target and
  throws a RangeError when the source is the longer one. Modelled as returning the new
  contents of the target.
\<close>

definition Uint8Array_set :: "8 word list \<Rightarrow> 8 word list \<Rightarrow> error + 8 word list" where
  "Uint8Array_set target source =
     (if length target < length source then Inl RangeError
      else Inr (source @ drop (length source) target))"

text \<open>The first three statements of \<open>createWallet\<close>: the identifier as 32 bytes.\<close>

definition createWallet_idArray :: "js_string \<Rightarrow> error + 8 word list" where
  "createWallet_idArray wallet_id =
     (let idBytes = utf8_encode (take 32 (padEnd wallet_id 32 0));
          idArray = replicate 32 0
      in Uint8Array_set idArray idBytes)"

text \<open>Both derivations are placeholders that ignore their argument.\<close>

definition deriveSwigConfigAddress :: "8 word list \<Rightarrow> error + Address" where
  "deriveSwigConfigAddress idArray = address system_program"

definition deriveSwigWalletAddress :: "Address \<Rightarrow> error + Address" where
  "deriveSwigWalletAddress configAddress = address system_program"

datatype AccountRole = readonly | writable | readonly_signer | writable_signer

record IInstruction =
  programAddress :: Address
  accounts :: "(Address \<times> AccountRole) list"
  data :: "8 word list"

record CreateWalletParams =
  rootAuthority :: Address
  id' :: js_string
  payer :: Address

record CreateWalletResult =
  signature :: js_string
  configAddress :: Address
  walletAddress :: Address

text \<open>
  \<open>sendTransaction\<close> signs and submits through the RPC node; it is a parameter here,
  returning the signature or the error it throws.
\<close>

type_synonym sendTransaction = "IInstruction list \<Rightarrow> Address \<Rightarrow> error + js_string"

definition createWallet ::
  "sendTransaction \<Rightarrow> CreateWalletParams \<Rightarrow> error + CreateWalletResult" where
  "createWallet send params =
     (case createWallet_idArray (id' params) of
        Inl e \<Rightarrow> Inl e
      | Inr idArray \<Rightarrow>
     (case deriveSwigConfigAddress idArray of
        Inl e \<Rightarrow> Inl e
      | Inr config \<Rightarrow>
     (case deriveSwigWalletAddress config of
        Inl e \<Rightarrow> Inl e
      | Inr wallet \<Rightarrow>
     (case address system_program of
        Inl e \<Rightarrow> Inl e
      | Inr sys \<Rightarrow>
          let createIx =
                \<lparr>programAddress = SWIG_PROGRAM_ID,
                 accounts =
                   [(config, writable), (payer params, writable_signer),
                    (wallet, writable), (sys, readonly)],
                 data = []\<rparr>
          in (case send [createIx] (payer params) of
                Inl e \<Rightarrow> Inl e
              | Inr sig \<Rightarrow>
                  Inr \<lparr>signature = sig, configAddress = config,
                       walletAddress = wallet\<rparr>)))))"

section \<open>The Budget Ledger\<close>

text \<open>
  Modelled from the spec: the Budget Ledger and its operation \<open>checkAndConsume\<close>
  (sections 3 and 4.4 of the specification). The sources hold no budget accounting: the
  client submits transactions to the Swig program and keeps no ledger. The definitions
  below follow the words of the specification.
\<close>

type_synonym role_id = nat
type_synonym ident = string

text \<open>The error taxonomy of section 7.\<close>

datatype reason =
    NotFound | DuplicateId | IdOutOfRange | RootConflict | CannotRemoveRoot
  | CannotModifyRoot | InsufficientPrivilege | PrivilegeEscalation | PermissionDenied
  | WrongDestination | LimitExceeded | ClockRegression

datatype outcome = Ok | Rejected reason

text \<open>
  Modelled from the spec: a consumable action as the ledger sees it. Of the kind and its
  parameters the algorithm reads the resource the kind spends, the limit (the amount, or
  the isolated balance of a scoped program), the window length of a recurring kind
  (\<open>None\<close> for a one-time kind, whose window never ends) and the destination of a
  destination-scoped kind.
\<close>

record Consumable =
  resource :: ident
  limit :: nat
  windowLength :: "nat option"
  scoped_destination :: "ident option"

text \<open>
  Modelled from the spec: a budget entry holds the amount consumed in the current window
  and the time the window started; the role and the action it belongs to are its key in
  the ledger.
\<close>

record BudgetEntry =
  consumed :: nat
  window_start :: int

type_synonym ledger = "role_id \<times> Consumable \<Rightarrow> BudgetEntry option"

text \<open>
  Modelled from the spec: "locate or create the BudgetEntry". The specification does not
  say when the window of a created entry starts; it starts at the time of the call here.
\<close>

definition locate_or_create :: "ledger \<Rightarrow> role_id \<Rightarrow> Consumable \<Rightarrow> int \<Rightarrow> BudgetEntry" where
  "locate_or_create L r a now =
     (case L (r, a) of
        Some e \<Rightarrow> e
      | None \<Rightarrow> \<lparr>consumed = 0, window_start = now\<rparr>)"

text \<open>
  Modelled from the spec: "If the action is recurring and \<open>now - window_start \<ge>
  windowLength\<close>, reset \<open>consumed = 0, window_start = now\<close> before checking."
\<close>

definition reset_due :: "Consumable \<Rightarrow> BudgetEntry \<Rightarrow> int \<Rightarrow> bool" where
  "reset_due a e now =
     (case windowLength a of
        None \<Rightarrow> False
      | Some w \<Rightarrow> int w \<le> now - window_start e)"

definition roll_window :: "Consumable \<Rightarrow> BudgetEntry \<Rightarrow> int \<Rightarrow> BudgetEntry" where
  "roll_window a e now =
     (if reset_due a e now then \<lparr>consumed = 0, window_start = now\<rparr> else e)"

text \<open>
  Modelled from the spec: "Destination-scoped kinds additionally require the requested
  destination to exactly match the entry's configured destination."
\<close>

definition destination_matches :: "Consumable \<Rightarrow> ident option \<Rightarrow> bool" where
  "destination_matches a requested =
     (case scoped_destination a of
        None \<Rightarrow> True
      | Some d \<Rightarrow> requested = Some d)"

text \<open>
  Modelled from the spec: the check and the update on one entry. A rejection leaves the
  entry as it was before the call ("no partial state change occurs on rejection"), so a
  reset that was due is kept only when the request is accepted.
\<close>

definition consume ::
  "Consumable \<Rightarrow> BudgetEntry \<Rightarrow> ident option \<Rightarrow> nat \<Rightarrow> int \<Rightarrow> outcome \<times> BudgetEntry"
  where
  "consume a e requested amt now =
     (let e' = roll_window a e now
      in if \<not> destination_matches a requested then (Rejected WrongDestination, e)
         else if limit a < consumed e' + amt then (Rejected LimitExceeded, e)
         else (Ok, e'\<lparr>consumed := consumed e' + amt\<rparr>))"

text \<open>
  Modelled from the spec: \<open>checkAndConsume(roleId, actionKind, params, amount, now)\<close> on
  the ledger. The entry is stored when the request is accepted; a rejection leaves the
  ledger unchanged.
\<close>

definition checkAndConsume ::
  "ledger \<Rightarrow> role_id \<Rightarrow> Consumable \<Rightarrow> ident option \<Rightarrow> nat \<Rightarrow> int \<Rightarrow> outcome \<times> ledger"
  where
  "checkAndConsume L r a requested amt now =
     (case consume a (locate_or_create L r a now) requested amt now of
        (Ok, e') \<Rightarrow> (Ok, L((r, a) \<mapsto> e'))
      | (Rejected why, _) \<Rightarrow> (Rejected why, L))"

text \<open>
  Modelled from the spec: a sequence of calls on one entry, each a requested destination,
  an amount and a time. \<open>entries_after\<close> lists the entry after each call, and
  \<open>resets_kept\<close> counts the calls that reset the window and were accepted.
\<close>

type_synonym call = "ident option \<times> nat \<times> int"

fun entries_after :: "Consumable \<Rightarrow> BudgetEntry \<Rightarrow> call list \<Rightarrow> BudgetEntry list" where
  "entries_after a e [] = []"
| "entries_after a e ((requested, amt, now) # cs) =
     (let e' = snd (consume a e requested amt now) in e' # entries_after a e' cs)"

fun resets_kept :: "Consumable \<Rightarrow> BudgetEntry \<Rightarrow> call list \<Rightarrow> nat" where
  "resets_kept a e [] = 0"
| "resets_kept a e ((requested, amt, now) # cs) =
     (let (res, e') = consume a e requested amt now
      in (if res = Ok \<and> reset_due a e now then 1 else 0) + resets_kept a e' cs)"

text \<open>
  Modelled from the spec: the same sequence of calls as \<open>checkAndConsume\<close> makes them on
  the ledger, for the entry of role \<open>r\<close> and action \<open>a\<close>: the ledger after each call.
\<close>

fun ledgers_after :: "ledger \<Rightarrow> role_id \<Rightarrow> Consumable \<Rightarrow> call list \<Rightarrow> ledger list" where
  "ledgers_after L r a [] = []"
| "ledgers_after L r a ((requested, amt, now) # cs) =
     (let L' = snd (checkAndConsume L r a requested amt now) in L' # ledgers_after L' r a cs)"

text \<open>
  The scenario of section 8: role 1 holds a recurring currency limit of 100 per 86400
  seconds. \<open>after_first\<close> is the ledger once the first 60 have been consumed at time 0.
\<close>

definition daily_100 :: Consumable where
  "daily_100 =
     \<lparr>resource = ''Currency'', limit = 100, windowLength = Some 86400,
      scoped_destination = None\<rparr>"

definition after_first :: ledger where
  "after_first = Map.empty((1, daily_100) \<mapsto> \<lparr>consumed = 60, window_start = 0\<rparr>)"

section \<open>Properties\<close>

subsection \<open>Numbers and addresses at the default literals\<close>

text \<open>Integers below \<open>2 ^ 53\<close> are binary64 values: rounding leaves them as they are.\<close>

lemma round_half_even_of_int: "round_half_even (of_int z) = z"
  by (simp add: round_half_even_def)

lemma round_double_of_nat:
  assumes "0 < n" "n < 2 ^ 53"
  shows "round_double (of_nat n) = Finite (of_nat n)"
proof -
  define k where "k = floorlog 2 n"
  have b: "2 ^ (k - 1) \<le> n" "n < 2 ^ k"
    using floorlog_bounds[of n 2] assms by (auto simp: k_def)
  have k1: "1 \<le> k"
    using b(2) assms(1) by (cases k) auto
  have k53: "k \<le> 53"
  proof (rule ccontr)
    assume "\<not> k \<le> 53"
    then have "53 \<le> k - 1" by simp
    then have "(2::nat) ^ 53 \<le> 2 ^ (k - 1)" by (rule power_increasing) simp
    with b(1) assms(2) show False by simp
  qed
  have il: "ilog2 (of_nat n) = int k - 1"
    using assms(1) by (simp add: ilog2_def k_def)
  define d where "d = 53 - k"
  have dk: "int k - 1 - 52 = - int d"
    using k53 by (simp add: d_def)
  have q: "(2::rat) powi (int k - 1 - 52) = 1 / 2 ^ d"
    unfolding dk by (simp add: power_int_minus field_simps)
  have aq: "(of_nat n :: rat) / (1 / 2 ^ d) = of_int (int (n * 2 ^ d))"
    by simp
  have m: "of_int (round_half_even ((of_nat n :: rat) / (1 / 2 ^ d))) * (1 / 2 ^ d) = (of_nat n :: rat)"
    unfolding aq round_half_even_of_int by simp
  have "(of_nat n :: rat) < of_nat (2 ^ 53)"
    using assms(2) by (simp only: of_nat_less_iff)
  also have "\<dots> \<le> 2 powi 1024"
    by (simp add: power_int_def)
  finally have big: "\<not> (2::rat) powi 1024 \<le> of_nat n"
    by simp
  have mx: "max (int k - 1) (- 1022) = int k - 1"
    using k1 by simp
  have n0: "(of_nat n :: rat) \<noteq> 0" "\<not> (of_nat n :: rat) < 0" "\<bar>of_nat n :: rat\<bar> = of_nat n"
    using assms(1) by simp_all
  show ?thesis
    unfolding round_double_def Let_def n0 il mx q m
    using big n0 by simp
qed

lemma parseInt_86400: "parseInt (js ''86400'') = Finite 86400"
  using round_double_of_nat[of 86400]
  by (simp add: parseInt_def js_def is_js_whitespace_def is_digit_def js_number_of_def digits_value_def)

lemma lamports_of_0: "lamports_of (js ''0'') = Inr 0"
  by (simp add: lamports_of_def parseFloat_def js_def is_js_whitespace_def is_digit_def
      js_number_of_def digits_value_def js_times_def is_zero_def)

lemma system_program_replicate: "system_program = replicate 32 0x31"
  by (simp add: system_program_def js_def numeral_eq_Suc)

lemma address_system_program: "address system_program = Inr system_program"
proof -
  have a: "list_all (\<lambda>c. c \<in> set base58_alphabet) (replicate 32 (0x31::16 word))"
    by (simp add: base58_alphabet_def js_def list_all_iff)
  have b: "base58_byteLength (replicate 32 0x31) = 32"
    by (simp add: base58_byteLength_def base58_value_def compute_floorlog
        takeWhile_replicate dropWhile_replicate)
  show ?thesis
    unfolding system_program_replicate using a b by (simp add: address_def)
qed

subsection \<open>The switch of \<open>parsePermission\<close>\<close>

lemma js_split_not_Nil: "js_split sep s \<noteq> []"
  by (induction s) (auto split: list.splits)

lemma hd_js_split: "hd (js_split sep s) = takeWhile (\<lambda>c. c \<noteq> sep) s"
  by (induction s) (auto split: list.splits simp: js_split_not_Nil)

lemma kinds_disjoint:
  "set limit_kinds \<inter> set recurring_kinds = {}"
  "set limit_kinds \<inter> set destination_kinds = {}"
  "set recurring_kinds \<inter> set destination_kinds = {}"
  "js ''Program'' \<notin> set limit_kinds"
  "js ''Program'' \<notin> set recurring_kinds"
  "js ''Program'' \<notin> set destination_kinds"
  by (simp_all add: limit_kinds_def recurring_kinds_def destination_kinds_def js_def)

lemma kinds_ActionType:
  "set limit_kinds \<subseteq> set ActionType"
  "set recurring_kinds \<subseteq> set ActionType"
  "set destination_kinds \<subseteq> set ActionType"
  "js ''Program'' \<in> set ActionType"
  by (simp_all add: limit_kinds_def recurring_kinds_def destination_kinds_def ActionType_def js_def)

lemma parsePermission_default_case:
  assumes "kind_field p \<notin> set limit_kinds" "kind_field p \<notin> set recurring_kinds"
    "kind_field p \<notin> set destination_kinds" "kind_field p \<noteq> js ''Program''"
  shows "parsePermission p = Inr (bare (kind_field p))"
  using assms by (simp add: parsePermission_def Let_def hd_js_split kind_field_def bare_def)

lemma parsePermission_limit_case:
  assumes "kind_field p \<in> set limit_kinds"
  shows "parsePermission p =
    (case lamports_of (or_default (param p 1) (js ''0'')) of
       Inl e \<Rightarrow> Inl e
     | Inr a \<Rightarrow> Inr ((bare (kind_field p))\<lparr>amount := Some a\<rparr>))"
  using assms
  by (simp add: parsePermission_def Let_def hd_js_split kind_field_def bare_def param_def
        split: sum.split)

lemma parsePermission_recurring_case:
  assumes "kind_field p \<in> set recurring_kinds"
  shows "parsePermission p =
    (case lamports_of (or_default (param p 1) (js ''0'')) of
       Inl e \<Rightarrow> Inl e
     | Inr a \<Rightarrow>
         Inr ((bare (kind_field p))
               \<lparr>amount := Some a,
                window := Some (parseInt (or_default (param p 2) (js ''86400'')))\<rparr>))"
proof -
  have "kind_field p \<notin> set limit_kinds"
    using assms kinds_disjoint(1) by blast
  then show ?thesis
    using assms
    by (simp add: parsePermission_def Let_def hd_js_split kind_field_def bare_def param_def
        split: sum.split)
qed

lemma parsePermission_destination_case:
  assumes "kind_field p \<in> set destination_kinds"
  shows "parsePermission p =
    (case address (or_default (param p 1) system_program) of
       Inl e \<Rightarrow> Inl e
     | Inr d \<Rightarrow>
         (case lamports_of (or_default (param p 2) (js ''0'')) of
            Inl e \<Rightarrow> Inl e
          | Inr a \<Rightarrow>
              Inr ((bare (kind_field p))\<lparr>amount := Some a, destination := Some d\<rparr>)))"
proof -
  have "kind_field p \<notin> set limit_kinds" "kind_field p \<notin> set recurring_kinds"
    using assms kinds_disjoint(2,3) by blast+
  then show ?thesis
    using assms
    by (simp add: parsePermission_def Let_def hd_js_split kind_field_def bare_def param_def
        split: sum.split)
qed

lemma parsePermission_Program_case:
  assumes "kind_field p = js ''Program''"
  shows "parsePermission p =
    (case address (or_default (param p 1) system_program) of
       Inl e \<Rightarrow> Inl e
     | Inr a \<Rightarrow> Inr ((bare (kind_field p))\<lparr>programId := Some a\<rparr>))"
proof -
  have "kind_field p \<notin> set limit_kinds" "kind_field p \<notin> set recurring_kinds"
    "kind_field p \<notin> set destination_kinds"
    using assms kinds_disjoint(4,5,6) by simp_all
  then show ?thesis
    using assms
    by (simp add: parsePermission_def Let_def hd_js_split kind_field_def bare_def param_def
        split: sum.split)
qed

lemma or_default_omitted: "omitted v \<Longrightarrow> or_default v d = d"
  by (cases v) auto

lemma or_default_given: "v = Some s \<Longrightarrow> s \<noteq> [] \<Longrightarrow> or_default v d = s"
  by simp

lemma nth_opt_numeral: "nth_opt (x # xs) (numeral n) = nth_opt xs (pred_numeral n)"
  by (simp add: numeral_eq_Suc)

subsection \<open>C5: the kind field is not validated\<close>

text \<open>
  Claim C5, as amended. \<open>parsePermission\<close> does not check the kind field against the
  closed set of action kinds: for every string whose kind field (the text before the
  first colon) is outside \<open>ActionType\<close>, it returns an action whose type is that kind
  field as written, with no parameter. It rejects no string because of its kind.
\<close>

theorem parsePermission_unvalidated:
  assumes "kind_field p \<notin> set ActionType"
  shows "parsePermission p = Inr (bare (kind_field p))"
proof (rule parsePermission_default_case)
  show "kind_field p \<notin> set limit_kinds" using assms kinds_ActionType(1) by blast
  show "kind_field p \<notin> set recurring_kinds" using assms kinds_ActionType(2) by blast
  show "kind_field p \<notin> set destination_kinds" using assms kinds_ActionType(3) by blast
  show "kind_field p \<noteq> js ''Program''" using assms kinds_ActionType(4) by metis
qed

text \<open>An instance: the kind \<open>Bogus\<close>.\<close>

lemma kind_field_Bogus: "kind_field (js ''Bogus:1'') = js ''Bogus''"
  by (simp add: kind_field_def js_def)

lemma Bogus_not_ActionType: "js ''Bogus'' \<notin> set ActionType"
  by (simp add: ActionType_def js_def)

text \<open>Claim C5, witness: the amended statement at the string \<open>Bogus:1\<close>.\<close>

theorem parsePermission_unvalidated_witness:
  "kind_field (js ''Bogus:1'') \<notin> set ActionType \<and>
   parsePermission (js ''Bogus:1'') = Inr (bare (js ''Bogus''))"
  using parsePermission_unvalidated [of "js ''Bogus:1''"]
  by (simp add: kind_field_Bogus Bogus_not_ActionType)

text \<open>
  Claim C5, counterexample to the claim as stated: \<open>Bogus\<close> is not an action kind, yet
  \<open>parsePermission\<close> returns an action for \<open>Bogus:1\<close> instead of rejecting it.
\<close>

theorem parsePermission_accepts_Bogus:
  "js ''Bogus'' \<notin> set ActionType \<and>
   kind_field (js ''Bogus:1'') = js ''Bogus'' \<and>
   parsePermission (js ''Bogus:1'') =
     Inr \<lparr>type = js ''Bogus'', amount = None, window = None, programId = None,
          destination = None\<rparr>"
proof -
  have "js ''Bogus'' \<notin> set limit_kinds" "js ''Bogus'' \<notin> set recurring_kinds"
    "js ''Bogus'' \<notin> set destination_kinds" "js ''Bogus'' \<noteq> js ''Program''"
    by (simp_all add: limit_kinds_def recurring_kinds_def destination_kinds_def js_def)
  then have "parsePermission (js ''Bogus:1'') = Inr (bare (js ''Bogus''))"
    using parsePermission_default_case [of "js ''Bogus:1''"] by (simp add: kind_field_Bogus)
  then show ?thesis
    by (simp add: kind_field_Bogus Bogus_not_ActionType bare_def)
qed

subsection \<open>C6: which parameters an action carries\<close>

text \<open>
  Claim C6, as amended. For the kinds the switch has a case for, the action that
  \<open>parsePermission\<close> returns carries the parameters read from the string, each from its
  field or from the default: the amount for the limit kinds, the amount and the window
  for the recurring kinds, the destination and the amount for the destination kinds,
  the program for \<open>Program\<close>. An action has no field for a token mint or for the balance
  of a program scope, so neither is ever carried.
\<close>

theorem parsePermission_carries_parameters:
  assumes "parsePermission p = Inr a"
  shows
   "(kind_field p \<in> set limit_kinds \<longrightarrow>
       (\<exists>n. lamports_of (or_default (param p 1) (js ''0'')) = Inr n \<and>
            a = (bare (kind_field p))\<lparr>amount := Some n\<rparr>)) \<and>
    (kind_field p \<in> set recurring_kinds \<longrightarrow>
       (\<exists>n. lamports_of (or_default (param p 1) (js ''0'')) = Inr n \<and>
            a = (bare (kind_field p))
                  \<lparr>amount := Some n,
                   window := Some (parseInt (or_default (param p 2) (js ''86400'')))\<rparr>)) \<and>
    (kind_field p \<in> set destination_kinds \<longrightarrow>
       (\<exists>d n. address (or_default (param p 1) system_program) = Inr d \<and>
            lamports_of (or_default (param p 2) (js ''0'')) = Inr n \<and>
            a = (bare (kind_field p))\<lparr>amount := Some n, destination := Some d\<rparr>)) \<and>
    (kind_field p = js ''Program'' \<longrightarrow>
       (\<exists>q. address (or_default (param p 1) system_program) = Inr q \<and>
            a = (bare (kind_field p))\<lparr>programId := Some q\<rparr>))"
proof (intro conjI impI)
  assume "kind_field p \<in> set limit_kinds"
  then show "\<exists>n. lamports_of (or_default (param p 1) (js ''0'')) = Inr n \<and>
      a = (bare (kind_field p))\<lparr>amount := Some n\<rparr>"
    using assms parsePermission_limit_case [of p] by (auto split: sum.splits)
next
  assume "kind_field p \<in> set recurring_kinds"
  then show "\<exists>n. lamports_of (or_default (param p 1) (js ''0'')) = Inr n \<and>
      a = (bare (kind_field p))
            \<lparr>amount := Some n,
             window := Some (parseInt (or_default (param p 2) (js ''86400'')))\<rparr>"
    using assms parsePermission_recurring_case [of p] by (auto split: sum.splits)
next
  assume "kind_field p \<in> set destination_kinds"
  then show "\<exists>d n. address (or_default (param p 1) system_program) = Inr d \<and>
      lamports_of (or_default (param p 2) (js ''0'')) = Inr n \<and>
      a = (bare (kind_field p))\<lparr>amount := Some n, destination := Some d\<rparr>"
    using assms parsePermission_destination_case [of p] by (auto split: sum.splits)
next
  assume "kind_field p = js ''Program''"
  then show "\<exists>q. address (or_default (param p 1) system_program) = Inr q \<and>
      a = (bare (kind_field p))\<lparr>programId := Some q\<rparr>"
    using assms parsePermission_Program_case [of p] by (auto split: sum.splits)
qed

text \<open>An instance: ten SOL a day.\<close>

lemma lamports_of_10: "lamports_of (js ''10'') = Inr 10000000000"
  using round_double_of_nat [of 10] round_double_of_nat [of 10000000000]
  by (simp add: lamports_of_def parseFloat_def js_def is_js_whitespace_def is_digit_def
      js_number_of_def digits_value_def js_times_def is_zero_def)

lemma recurring_example:
  "kind_field (js ''SolRecurringLimit:10:86400'') = js ''SolRecurringLimit''"
  "param (js ''SolRecurringLimit:10:86400'') 1 = Some (js ''10'')"
  "param (js ''SolRecurringLimit:10:86400'') 2 = Some (js ''86400'')"
  "js ''SolRecurringLimit'' \<in> set recurring_kinds"
  by (simp_all add: kind_field_def param_def js_def nth_opt_numeral recurring_kinds_def)

lemma parsePermission_recurring_example:
  "parsePermission (js ''SolRecurringLimit:10:86400'') =
     Inr ((bare (js ''SolRecurringLimit''))
           \<lparr>amount := Some 10000000000, window := Some (Finite 86400)\<rparr>)"
proof -
  have k: "kind_field (js ''SolRecurringLimit:10:86400'') \<in> set recurring_kinds"
    using recurring_example(1,4) by simp
  have 1: "or_default (param (js ''SolRecurringLimit:10:86400'') 1) (js ''0'') = js ''10''"
    using recurring_example(2) by (simp add: js_def)
  have 2: "or_default (param (js ''SolRecurringLimit:10:86400'') 2) (js ''86400'') = js ''86400''"
    using recurring_example(3) by (simp add: js_def)
  show ?thesis
    unfolding parsePermission_recurring_case [OF k] 1 2 lamports_of_10 parseInt_86400
      recurring_example(1)
    by simp
qed

text \<open>Claim C6, witness: the amended statement at \<open>SolRecurringLimit:10:86400\<close>.\<close>

theorem parsePermission_carries_parameters_witness:
  "parsePermission (js ''SolRecurringLimit:10:86400'') =
     Inr ((bare (js ''SolRecurringLimit''))
           \<lparr>amount := Some 10000000000, window := Some (Finite 86400)\<rparr>) \<and>
   (\<exists>n. lamports_of (js ''10'') = Inr n \<and>
      (bare (js ''SolRecurringLimit''))
         \<lparr>amount := Some 10000000000, window := Some (Finite 86400)\<rparr> =
      (bare (js ''SolRecurringLimit''))
         \<lparr>amount := Some n, window := Some (parseInt (js ''86400''))\<rparr>)"
proof -
  have 1: "or_default (param (js ''SolRecurringLimit:10:86400'') 1) (js ''0'') = js ''10''"
    using recurring_example(2) by (simp add: js_def)
  have 2: "or_default (param (js ''SolRecurringLimit:10:86400'') 2) (js ''86400'') = js ''86400''"
    using recurring_example(3) by (simp add: js_def)
  show ?thesis
    using parsePermission_carries_parameters [OF parsePermission_recurring_example]
      recurring_example(1,4) parsePermission_recurring_example
    unfolding 1 2 by simp
qed

lemma kind_field_examples:
  "kind_field (js ''SolRecurringDestinationLimit:11111111111111111111111111111111:1:86400'')
     = js ''SolRecurringDestinationLimit''"
  "kind_field (js ''TokenRecurringDestinationLimit:11111111111111111111111111111111:1:86400'')
     = js ''TokenRecurringDestinationLimit''"
  "kind_field (js ''ProgramScope:11111111111111111111111111111111:5'') = js ''ProgramScope''"
  by (simp_all add: kind_field_def js_def)

lemma unhandled_kinds:
  "k \<in> {js ''SolRecurringDestinationLimit'', js ''TokenRecurringDestinationLimit'',
         js ''ProgramScope''} \<Longrightarrow>
   k \<in> set ActionType \<and> k \<notin> set limit_kinds \<and> k \<notin> set recurring_kinds \<and>
   k \<notin> set destination_kinds \<and> k \<noteq> js ''Program''"
  by (auto simp add: ActionType_def limit_kinds_def recurring_kinds_def destination_kinds_def js_def)

text \<open>
  Claim C6, counterexample to the claim as stated. The switch has no case for
  \<open>SolRecurringDestinationLimit\<close>, \<open>TokenRecurringDestinationLimit\<close> and
  \<open>ProgramScope\<close>: they fall to the default case, and the destination, amount, window
  and program written in the string are dropped.
\<close>

theorem parsePermission_drops_parameters:
  "parsePermission
     (js ''SolRecurringDestinationLimit:11111111111111111111111111111111:1:86400'') =
     Inr \<lparr>type = js ''SolRecurringDestinationLimit'', amount = None, window = None,
          programId = None, destination = None\<rparr> \<and>
   parsePermission
     (js ''TokenRecurringDestinationLimit:11111111111111111111111111111111:1:86400'') =
     Inr \<lparr>type = js ''TokenRecurringDestinationLimit'', amount = None, window = None,
          programId = None, destination = None\<rparr> \<and>
   parsePermission (js ''ProgramScope:11111111111111111111111111111111:5'') =
     Inr \<lparr>type = js ''ProgramScope'', amount = None, window = None, programId = None,
          destination = None\<rparr>"
  using
    parsePermission_default_case
      [of "js ''SolRecurringDestinationLimit:11111111111111111111111111111111:1:86400''"]
    parsePermission_default_case
      [of "js ''TokenRecurringDestinationLimit:11111111111111111111111111111111:1:86400''"]
    parsePermission_default_case [of "js ''ProgramScope:11111111111111111111111111111111:5''"]
    unhandled_kinds [of "js ''SolRecurringDestinationLimit''"]
    unhandled_kinds [of "js ''TokenRecurringDestinationLimit''"]
    unhandled_kinds [of "js ''ProgramScope''"]
  unfolding kind_field_examples bare_def by blast

subsection \<open>C10: defaults for omitted fields\<close>

lemma defaults_limit:
  assumes "kind_field p \<in> set limit_kinds" "omitted (param p 1)"
  shows "parsePermission p = Inr ((bare (kind_field p))\<lparr>amount := Some 0\<rparr>)"
  unfolding parsePermission_limit_case [OF assms(1)] or_default_omitted [OF assms(2)]
    lamports_of_0
  by simp

lemma defaults_recurring:
  assumes "kind_field p \<in> set recurring_kinds" "omitted (param p 1)" "omitted (param p 2)"
  shows "parsePermission p =
    Inr ((bare (kind_field p))\<lparr>amount := Some 0, window := Some (Finite 86400)\<rparr>)"
  unfolding parsePermission_recurring_case [OF assms(1)] or_default_omitted [OF assms(2)]
    or_default_omitted [OF assms(3)] lamports_of_0 parseInt_86400
  by simp

lemma defaults_recurring_amount:
  assumes "kind_field p \<in> set recurring_kinds" "omitted (param p 1)"
    "param p 2 = Some w" "w \<noteq> []"
  shows "parsePermission p =
    Inr ((bare (kind_field p))\<lparr>amount := Some 0, window := Some (parseInt w)\<rparr>)"
  unfolding parsePermission_recurring_case [OF assms(1)] or_default_omitted [OF assms(2)]
    or_default_given [OF assms(3,4)] lamports_of_0
  by simp

lemma defaults_recurring_window:
  assumes "kind_field p \<in> set recurring_kinds" "param p 1 = Some a" "a \<noteq> []"
    "omitted (param p 2)"
  shows "parsePermission p =
    (case lamports_of a of
       Inl e \<Rightarrow> Inl e
     | Inr n \<Rightarrow>
         Inr ((bare (kind_field p))\<lparr>amount := Some n, window := Some (Finite 86400)\<rparr>))"
  unfolding parsePermission_recurring_case [OF assms(1)] or_default_given [OF assms(2,3)]
    or_default_omitted [OF assms(4)] parseInt_86400
  by simp

lemma defaults_destination:
  assumes "kind_field p \<in> set destination_kinds" "omitted (param p 1)" "omitted (param p 2)"
  shows "parsePermission p =
    Inr ((bare (kind_field p))\<lparr>amount := Some 0, destination := Some system_program\<rparr>)"
  unfolding parsePermission_destination_case [OF assms(1)] or_default_omitted [OF assms(2)]
    or_default_omitted [OF assms(3)] lamports_of_0 address_system_program
  by simp

lemma defaults_destination_address:
  assumes "kind_field p \<in> set destination_kinds" "omitted (param p 1)"
    "param p 2 = Some a" "a \<noteq> []"
  shows "parsePermission p =
    (case lamports_of a of
       Inl e \<Rightarrow> Inl e
     | Inr n \<Rightarrow>
         Inr ((bare (kind_field p))\<lparr>amount := Some n, destination := Some system_program\<rparr>))"
  unfolding parsePermission_destination_case [OF assms(1)] or_default_omitted [OF assms(2)]
    or_default_given [OF assms(3,4)] address_system_program
  by simp

lemma defaults_destination_amount:
  assumes "kind_field p \<in> set destination_kinds" "param p 1 = Some d" "d \<noteq> []"
    "omitted (param p 2)"
  shows "parsePermission p =
    (case address d of
       Inl e \<Rightarrow> Inl e
     | Inr d' \<Rightarrow>
         Inr ((bare (kind_field p))\<lparr>amount := Some 0, destination := Some d'\<rparr>))"
  unfolding parsePermission_destination_case [OF assms(1)] or_default_given [OF assms(2,3)]
    or_default_omitted [OF assms(4)] lamports_of_0
  by (simp split: sum.split)

lemma defaults_Program:
  assumes "kind_field p = js ''Program''" "omitted (param p 1)"
  shows "parsePermission p = Inr ((bare (kind_field p))\<lparr>programId := Some system_program\<rparr>)"
  unfolding parsePermission_Program_case [OF assms(1)] or_default_omitted [OF assms(2)]
    address_system_program
  by simp

text \<open>
  Claim C10. For the kinds the switch has a case for, an omitted field (absent or empty)
  never makes \<open>parsePermission\<close> fail; the default is substituted: amount \<open>0\<close>, window
  \<open>86400\<close>, destination and program \<open>11111111111111111111111111111111\<close>. With every
  field omitted the call succeeds; with one field given, it can only fail on that field.
\<close>

theorem parsePermission_defaults:
  "(kind_field p \<in> set limit_kinds \<and> omitted (param p 1) \<longrightarrow>
      parsePermission p = Inr ((bare (kind_field p))\<lparr>amount := Some 0\<rparr>)) \<and>
   (kind_field p \<in> set recurring_kinds \<and> omitted (param p 1) \<and> omitted (param p 2) \<longrightarrow>
      parsePermission p =
        Inr ((bare (kind_field p))\<lparr>amount := Some 0, window := Some (Finite 86400)\<rparr>)) \<and>
   (kind_field p \<in> set recurring_kinds \<and> omitted (param p 1) \<and>
    param p 2 = Some w \<and> w \<noteq> [] \<longrightarrow>
      parsePermission p =
        Inr ((bare (kind_field p))\<lparr>amount := Some 0, window := Some (parseInt w)\<rparr>)) \<and>
   (kind_field p \<in> set recurring_kinds \<and> param p 1 = Some a \<and> a \<noteq> [] \<and>
    omitted (param p 2) \<longrightarrow>
      parsePermission p =
        (case lamports_of a of
           Inl e \<Rightarrow> Inl e
         | Inr n \<Rightarrow>
             Inr ((bare (kind_field p))
                   \<lparr>amount := Some n, window := Some (Finite 86400)\<rparr>))) \<and>
   (kind_field p \<in> set destination_kinds \<and> omitted (param p 1) \<and> omitted (param p 2) \<longrightarrow>
      parsePermission p =
        Inr ((bare (kind_field p))
              \<lparr>amount := Some 0, destination := Some system_program\<rparr>)) \<and>
   (kind_field p \<in> set destination_kinds \<and> omitted (param p 1) \<and>
    param p 2 = Some a \<and> a \<noteq> [] \<longrightarrow>
      parsePermission p =
        (case lamports_of a of
           Inl e \<Rightarrow> Inl e
         | Inr n \<Rightarrow>
             Inr ((bare (kind_field p))
                   \<lparr>amount := Some n, destination := Some system_program\<rparr>))) \<and>
   (kind_field p \<in> set destination_kinds \<and> param p 1 = Some d \<and> d \<noteq> [] \<and>
    omitted (param p 2) \<longrightarrow>
      parsePermission p =
        (case address d of
           Inl e \<Rightarrow> Inl e
         | Inr d' \<Rightarrow>
             Inr ((bare (kind_field p))\<lparr>amount := Some 0, destination := Some d'\<rparr>))) \<and>
   (kind_field p = js ''Program'' \<and> omitted (param p 1) \<longrightarrow>
      parsePermission p =
        Inr ((bare (kind_field p))\<lparr>programId := Some system_program\<rparr>))"
proof (intro conjI impI)
  assume "kind_field p \<in> set limit_kinds \<and> omitted (param p 1)"
  then show "parsePermission p = Inr ((bare (kind_field p))\<lparr>amount := Some 0\<rparr>)"
    using defaults_limit by blast
next
  assume "kind_field p \<in> set recurring_kinds \<and> omitted (param p 1) \<and> omitted (param p 2)"
  then show "parsePermission p =
        Inr ((bare (kind_field p))\<lparr>amount := Some 0, window := Some (Finite 86400)\<rparr>)"
    using defaults_recurring by blast
next
  assume "kind_field p \<in> set recurring_kinds \<and> omitted (param p 1) \<and>
    param p 2 = Some w \<and> w \<noteq> []"
  then show "parsePermission p =
        Inr ((bare (kind_field p))\<lparr>amount := Some 0, window := Some (parseInt w)\<rparr>)"
    using defaults_recurring_amount by blast
next
  assume "kind_field p \<in> set recurring_kinds \<and> param p 1 = Some a \<and> a \<noteq> [] \<and>
    omitted (param p 2)"
  then show "parsePermission p =
        (case lamports_of a of
           Inl e \<Rightarrow> Inl e
         | Inr n \<Rightarrow>
             Inr ((bare (kind_field p))
                   \<lparr>amount := Some n, window := Some (Finite 86400)\<rparr>))"
    using defaults_recurring_window by blast
next
  assume "kind_field p \<in> set destination_kinds \<and> omitted (param p 1) \<and> omitted (param p 2)"
  then show "parsePermission p =
        Inr ((bare (kind_field p))
              \<lparr>amount := Some 0, destination := Some system_program\<rparr>)"
    using defaults_destination by blast
next
  assume "kind_field p \<in> set destination_kinds \<and> omitted (param p 1) \<and>
    param p 2 = Some a \<and> a \<noteq> []"
  then show "parsePermission p =
        (case lamports_of a of
           Inl e \<Rightarrow> Inl e
         | Inr n \<Rightarrow>
             Inr ((bare (kind_field p))
                   \<lparr>amount := Some n, destination := Some system_program\<rparr>))"
    using defaults_destination_address by blast
next
  assume "kind_field p \<in> set destination_kinds \<and> param p 1 = Some d \<and> d \<noteq> [] \<and>
    omitted (param p 2)"
  then show "parsePermission p =
        (case address d of
           Inl e \<Rightarrow> Inl e
         | Inr d' \<Rightarrow>
             Inr ((bare (kind_field p))\<lparr>amount := Some 0, destination := Some d'\<rparr>))"
    using defaults_destination_amount by blast
next
  assume "kind_field p = js ''Program'' \<and> omitted (param p 1)"
  then show "parsePermission p =
        Inr ((bare (kind_field p))\<lparr>programId := Some system_program\<rparr>)"
    using defaults_Program by blast
qed

lemma default_examples:
  "kind_field (js ''SolLimit'') = js ''SolLimit''"
  "param (js ''SolLimit'') 1 = None"
  "kind_field (js ''StakeRecurringLimit:'') = js ''StakeRecurringLimit''"
  "param (js ''StakeRecurringLimit:'') 1 = Some []"
  "param (js ''StakeRecurringLimit:'') 2 = None"
  "kind_field (js ''TokenDestinationLimit'') = js ''TokenDestinationLimit''"
  "param (js ''TokenDestinationLimit'') 1 = None"
  "param (js ''TokenDestinationLimit'') 2 = None"
  "kind_field (js ''Program'') = js ''Program''"
  "param (js ''Program'') 1 = None"
  by (simp_all add: kind_field_def param_def js_def nth_opt_numeral)

lemma default_example_kinds:
  "js ''SolLimit'' \<in> set limit_kinds"
  "js ''StakeRecurringLimit'' \<in> set recurring_kinds"
  "js ''TokenDestinationLimit'' \<in> set destination_kinds"
  by (simp_all add: limit_kinds_def recurring_kinds_def destination_kinds_def)

text \<open>Claim C10, witness: one string of each group with its fields omitted.\<close>

theorem parsePermission_defaults_witness:
  "parsePermission (js ''SolLimit'') = Inr ((bare (js ''SolLimit''))\<lparr>amount := Some 0\<rparr>) \<and>
   parsePermission (js ''StakeRecurringLimit:'') =
     Inr ((bare (js ''StakeRecurringLimit''))
           \<lparr>amount := Some 0, window := Some (Finite 86400)\<rparr>) \<and>
   parsePermission (js ''TokenDestinationLimit'') =
     Inr ((bare (js ''TokenDestinationLimit''))
           \<lparr>amount := Some 0, destination := Some system_program\<rparr>) \<and>
   parsePermission (js ''Program'') =
     Inr ((bare (js ''Program''))\<lparr>programId := Some system_program\<rparr>)"
  using parsePermission_defaults [of "js ''SolLimit''"]
    parsePermission_defaults [of "js ''StakeRecurringLimit:''"]
    parsePermission_defaults [of "js ''TokenDestinationLimit''"]
    parsePermission_defaults [of "js ''Program''"]
    default_examples default_example_kinds
  by simp

subsection \<open>The program address literal\<close>

text \<open>
  \<open>address\<close> refuses the literal the module passes to it for \<open>SWIG_PROGRAM_ID\<close>, so the
  initialiser of that constant throws. The functions of the module are modelled as their
  bodies, with the literal itself standing for the constant.
\<close>

lemma SWIG_PROGRAM_ID_invalid:
  "address SWIG_PROGRAM_ID = Inl SOLANA_ERROR__CODECS__INVALID_STRING_FOR_BASE"
  by (simp add: address_def SWIG_PROGRAM_ID_def js_def base58_alphabet_def)

subsection \<open>C9: \<open>getWalletInfo\<close>\<close>

text \<open>
  Claim C9. When the node reports no account at the address, \<open>getWalletInfo\<close> returns
  \<open>{exists: false, roles: 0, lamports: 0}\<close> and raises nothing; when it reports an
  account, the result has \<open>roles = 0\<close> whatever the account holds, and only the lamports
  are taken from it.
\<close>

theorem getWalletInfo_roles:
  "(rpc a = Inr None \<longrightarrow>
      getWalletInfo rpc a = Inr \<lparr>exists = False, roles = 0, lamports = 0\<rparr>) \<and>
   (rpc a = Inr (Some acc) \<longrightarrow>
      getWalletInfo rpc a =
        Inr \<lparr>exists = True, roles = 0, lamports = account_lamports acc\<rparr>)"
  by (simp add: getWalletInfo_def)

text \<open>Claim C9, witness: a node that reports no account, and one that reports an account.\<close>

theorem getWalletInfo_roles_witness:
  "getWalletInfo (\<lambda>a. Inr None) system_program =
     Inr \<lparr>exists = False, roles = 0, lamports = 0\<rparr> \<and>
   getWalletInfo
     (\<lambda>a. Inr (Some \<lparr>account_lamports = 99890880, account_data = js ''AAEC'',
                      account_owner = system_program, account_executable = False\<rparr>))
     system_program =
     Inr \<lparr>exists = True, roles = 0, lamports = 99890880\<rparr>"
  using getWalletInfo_roles [of "\<lambda>a. Inr None" system_program]
    getWalletInfo_roles
      [of "\<lambda>a. Inr (Some \<lparr>account_lamports = 99890880, account_data = js ''AAEC'',
                      account_owner = system_program, account_executable = False\<rparr>)"
          system_program
          "\<lparr>account_lamports = 99890880, account_data = js ''AAEC'',
                      account_owner = system_program, account_executable = False\<rparr>"]
  by simp

subsection \<open>C7: the wallet identifier\<close>

text \<open>Code units below \<open>0x80\<close> are one byte each; every other code unit takes more.\<close>

lemma not_surrogate_if_ascii: "c < 0x80 \<Longrightarrow> \<not> is_high_surrogate c \<and> \<not> is_low_surrogate c"
  by (simp add: is_high_surrogate_def is_low_surrogate_def word_le_nat_alt word_less_nat_alt)

lemma code_point_ascii: "c < 0x80 \<Longrightarrow> code_point_of_unit c = unat c \<and> unat c < 0x80"
  using not_surrogate_if_ascii [of c]
  by (simp add: code_point_of_unit_def word_less_nat_alt)

lemma utf8_unit_ascii: "c < 0x80 \<Longrightarrow> utf8_of_code_point (code_point_of_unit c) = [ucast c]"
  using code_point_ascii [of c] by (simp add: utf8_of_code_point_def)

lemma code_point_not_ascii: "\<not> c < 0x80 \<Longrightarrow> \<not> code_point_of_unit c < 0x80"
  by (simp add: code_point_of_unit_def word_less_nat_alt)

lemma length_utf8_of_code_point:
  "length (utf8_of_code_point cp) = (if cp < 0x80 then 1 else if cp < 0x800 then 2 else if cp < 0x10000 then 3 else 4)"
  by (simp add: utf8_of_code_point_def)

lemma utf8_encode_ascii: "\<forall>c \<in> set xs. c < 0x80 \<Longrightarrow> utf8_encode xs = map ucast xs"
proof (induction xs rule: utf8_encode.induct)
  case 1
  then show ?case by simp
next
  case (2 c)
  then show ?case by (simp add: utf8_unit_ascii)
next
  case (3 c d ds)
  then have "\<not> is_high_surrogate c" using not_surrogate_if_ascii [of c] by simp
  with 3 show ?case by (simp add: utf8_unit_ascii)
qed

lemma length_utf8_encode_ge: "length xs \<le> length (utf8_encode xs)"
proof (induction xs rule: utf8_encode.induct)
  case 1
  then show ?case by simp
next
  case (2 c)
  then show ?case by (simp add: length_utf8_of_code_point)
next
  case (3 c d ds)
  then show ?case by (auto simp add: length_utf8_of_code_point)
qed

lemma length_utf8_encode_gt:
  "\<exists>c \<in> set xs. \<not> c < 0x80 \<Longrightarrow> length xs < length (utf8_encode xs)"
proof (induction xs rule: utf8_encode.induct)
  case 1
  then show ?case by simp
next
  case (2 c)
  then show ?case using code_point_not_ascii [of c] by (simp add: length_utf8_of_code_point)
next
  case (3 c d ds)
  show ?case
  proof (cases "is_high_surrogate c \<and> is_low_surrogate d")
    case True
    then show ?thesis
      using length_utf8_encode_ge [of ds] by (simp add: length_utf8_of_code_point)
  next
    case False
    show ?thesis
    proof (cases "c < 0x80")
      case True
      with 3 False show ?thesis by (auto simp add: length_utf8_of_code_point)
    next
      case nc: False
      then show ?thesis
        using False code_point_not_ascii [of c] length_utf8_encode_ge [of "d # ds"]
        by (auto simp add: length_utf8_of_code_point)
    qed
  qed
qed

lemma length_padded: "length (take 32 (padEnd s 32 c)) = 32"
  by (simp add: padEnd_def)

lemma padded_ascii:
  "(\<forall>c \<in> set (take 32 (padEnd s 32 0)). c < 0x80) \<longleftrightarrow> (\<forall>c \<in> set (take 32 s). c < 0x80)"
  by (auto simp add: padEnd_def dest: in_set_takeD)

lemma padded_bytes:
  "map ucast (take 32 (padEnd s 32 0)) = (map ucast (take 32 s) @ replicate (32 - length s) 0 :: 8 word list)"
  by (simp add: padEnd_def)

lemma createWallet_idArray_iff:
  "createWallet_idArray s = Inr bs \<longleftrightarrow>
     (\<forall>c \<in> set (take 32 s). c < 0x80) \<and>
     bs = map ucast (take 32 s) @ replicate (32 - length s) 0"
proof (cases "\<forall>c \<in> set (take 32 (padEnd s 32 0)). c < 0x80")
  case True
  then have "utf8_encode (take 32 (padEnd s 32 0)) = map ucast (take 32 (padEnd s 32 0))"
    by (rule utf8_encode_ascii)
  then have "createWallet_idArray s = Inr (map ucast (take 32 (padEnd s 32 0)))"
    using length_padded [of s 0] by (simp add: createWallet_idArray_def Uint8Array_set_def Let_def)
  then show ?thesis
    using True unfolding padded_ascii padded_bytes by auto
next
  case False
  then have "length (take 32 (padEnd s 32 0)) < length (utf8_encode (take 32 (padEnd s 32 0)))"
    by (intro length_utf8_encode_gt) simp
  then have "createWallet_idArray s = Inl RangeError"
    using length_padded [of s 0] by (simp add: createWallet_idArray_def Uint8Array_set_def Let_def)
  then show ?thesis
    using False unfolding padded_ascii by simp
qed

lemma createWallet_accepts_iff:
  "(\<exists>r. createWallet send params = Inr r) \<longleftrightarrow>
     (\<exists>idArray sig. createWallet_idArray (id' params) = Inr idArray \<and>
        send [\<lparr>programAddress = SWIG_PROGRAM_ID,
               accounts =
                 [(system_program, writable), (payer params, writable_signer),
                  (system_program, writable), (system_program, readonly)],
               data = []\<rparr>] (payer params) = Inr sig)"
  by (auto simp add: createWallet_def deriveSwigConfigAddress_def deriveSwigWalletAddress_def
      address_system_program Let_def split: sum.splits)

text \<open>
  Claim C7, as amended. When \<open>createWallet\<close> accepts an identifier, the encoded
  identifier is exactly 32 bytes: the UTF-8 bytes of the first 32 code units of the
  identifier, which are all below \<open>0x80\<close>, then zero bytes up to 32. The encoding step
  accepts exactly the identifiers whose first 32 code units are below \<open>0x80\<close>: one longer
  than 32 is not refused but cut to its first 32 code units.
\<close>

theorem createWallet_identifier:
  "(createWallet send params = Inr r \<longrightarrow>
      (\<exists>idArray. createWallet_idArray (id' params) = Inr idArray \<and> length idArray = 32 \<and>
         idArray =
           utf8_encode (take 32 (id' params)) @ replicate (32 - length (id' params)) 0 \<and>
         (\<forall>c \<in> set (take 32 (id' params)). c < 0x80))) \<and>
   (createWallet_idArray s = Inr bs \<longleftrightarrow>
      (\<forall>c \<in> set (take 32 s). c < 0x80) \<and>
      bs = utf8_encode (take 32 s) @ replicate (32 - length s) 0)"
proof (intro conjI impI)
  assume "createWallet send params = Inr r"
  then obtain idArray where a: "createWallet_idArray (id' params) = Inr idArray"
    using createWallet_accepts_iff [of send params] by blast
  then have b: "\<forall>c \<in> set (take 32 (id' params)). c < 0x80"
    and c: "idArray = map ucast (take 32 (id' params)) @ replicate (32 - length (id' params)) 0"
    using createWallet_idArray_iff [of "id' params" idArray] by simp_all
  have "length idArray = 32"
    unfolding c by simp
  moreover have "idArray =
      utf8_encode (take 32 (id' params)) @ replicate (32 - length (id' params)) 0"
    unfolding c using utf8_encode_ascii [OF b] by simp
  ultimately show "\<exists>idArray. createWallet_idArray (id' params) = Inr idArray \<and>
      length idArray = 32 \<and>
      idArray = utf8_encode (take 32 (id' params)) @ replicate (32 - length (id' params)) 0 \<and>
      (\<forall>c \<in> set (take 32 (id' params)). c < 0x80)"
    using a b by blast
next
  show "createWallet_idArray s = Inr bs \<longleftrightarrow>
      (\<forall>c \<in> set (take 32 s). c < 0x80) \<and>
      bs = utf8_encode (take 32 s) @ replicate (32 - length s) 0"
    using createWallet_idArray_iff [of s bs] utf8_encode_ascii [of "take 32 s"] by auto
qed

lemma ascii_examples:
  "\<forall>c \<in> set (take 32 (js ''my-treasury-001'')). c < 0x80"
  "\<forall>c \<in> set (take 32 (js ''abcdefghijklmnopqrstuvwxyz0123456'')). c < 0x80"
  by (simp_all add: js_def)

lemma length_examples:
  "length (js ''my-treasury-001'') = 15"
  "length (js ''abcdefghijklmnopqrstuvwxyz0123456'') = 33"
  "take 32 (js ''my-treasury-001'') = js ''my-treasury-001''"
  "take 32 (js ''abcdefghijklmnopqrstuvwxyz0123456'') = js ''abcdefghijklmnopqrstuvwxyz012345''"
  by (simp_all add: js_def)

text \<open>Claim C7, witness: the identifier \<open>my-treasury-001\<close> with a transport that succeeds.\<close>

theorem createWallet_identifier_witness:
  "createWallet (\<lambda>ixs p. Inr (js ''sig''))
     \<lparr>rootAuthority = system_program, id' = js ''my-treasury-001'', payer = system_program\<rparr> =
     Inr \<lparr>signature = js ''sig'', configAddress = system_program,
          walletAddress = system_program\<rparr> \<and>
   createWallet_idArray (js ''my-treasury-001'') =
     Inr (utf8_encode (js ''my-treasury-001'') @ replicate 17 0) \<and>
   length (utf8_encode (js ''my-treasury-001'') @ replicate 17 (0 :: 8 word)) = 32"
proof -
  let ?params =
    "\<lparr>rootAuthority = system_program, id' = js ''my-treasury-001'', payer = system_program\<rparr>"
  let ?r = "\<lparr>signature = js ''sig'', configAddress = system_program,
          walletAddress = system_program\<rparr>"
  have a: "createWallet_idArray (js ''my-treasury-001'') =
      Inr (utf8_encode (js ''my-treasury-001'') @ replicate 17 0)"
    using createWallet_identifier
      [of "\<lambda>ixs p. Inr (js ''sig'')" ?params ?r "js ''my-treasury-001''"
          "utf8_encode (js ''my-treasury-001'') @ replicate 17 0"]
      ascii_examples(1)
    by (simp add: length_examples)
  then have b: "createWallet (\<lambda>ixs p. Inr (js ''sig'')) ?params = Inr ?r"
    by (simp add: createWallet_def deriveSwigConfigAddress_def deriveSwigWalletAddress_def
        address_system_program)
  have "length (utf8_encode (js ''my-treasury-001'') @ replicate 17 (0 :: 8 word)) = 32"
    using createWallet_identifier
      [of "\<lambda>ixs p. Inr (js ''sig'')" ?params ?r "js ''my-treasury-001''"
          "utf8_encode (js ''my-treasury-001'') @ replicate 17 0"]
      a b
    by (simp add: length_examples)
  with a b show ?thesis by simp
qed

text \<open>
  Claim C7, counterexample to the claim as stated: an identifier of 33 bytes is accepted,
  and its last byte is missing from the encoded identifier.
\<close>

theorem createWallet_truncates_long_identifier:
  "length (utf8_encode (js ''abcdefghijklmnopqrstuvwxyz0123456'')) = 33 \<and>
   createWallet_idArray (js ''abcdefghijklmnopqrstuvwxyz0123456'') =
     Inr (map ucast (js ''abcdefghijklmnopqrstuvwxyz012345'')) \<and>
   createWallet (\<lambda>ixs p. Inr (js ''sig''))
     \<lparr>rootAuthority = system_program, id' = js ''abcdefghijklmnopqrstuvwxyz0123456'',
      payer = system_program\<rparr> =
     Inr \<lparr>signature = js ''sig'', configAddress = system_program,
          walletAddress = system_program\<rparr>"
proof -
  have "\<forall>c \<in> set (js ''abcdefghijklmnopqrstuvwxyz0123456''). c < 0x80"
    by (simp add: js_def)
  then have l: "length (utf8_encode (js ''abcdefghijklmnopqrstuvwxyz0123456'')) = 33"
    using utf8_encode_ascii [of "js ''abcdefghijklmnopqrstuvwxyz0123456''"]
    by (simp add: length_examples)
  have a: "createWallet_idArray (js ''abcdefghijklmnopqrstuvwxyz0123456'') =
      Inr (map ucast (js ''abcdefghijklmnopqrstuvwxyz012345''))"
    using createWallet_idArray_iff
      [of "js ''abcdefghijklmnopqrstuvwxyz0123456''"
          "map ucast (js ''abcdefghijklmnopqrstuvwxyz012345'')"]
      ascii_examples(2)
    by (simp add: length_examples)
  then have "createWallet (\<lambda>ixs p. Inr (js ''sig''))
     \<lparr>rootAuthority = system_program, id' = js ''abcdefghijklmnopqrstuvwxyz0123456'',
      payer = system_program\<rparr> =
     Inr \<lparr>signature = js ''sig'', configAddress = system_program,
          walletAddress = system_program\<rparr>"
    by (simp add: createWallet_def deriveSwigConfigAddress_def deriveSwigWalletAddress_def
        address_system_program)
  with l a show ?thesis by simp
qed

subsection \<open>The Budget Ledger: one call, and a sequence of calls\<close>

lemma consume_cases:
  "consume a e requested amt now =
     (if \<not> destination_matches a requested then (Rejected WrongDestination, e)
      else if limit a < consumed (roll_window a e now) + amt then (Rejected LimitExceeded, e)
      else (Ok, (roll_window a e now)\<lparr>consumed := consumed (roll_window a e now) + amt\<rparr>))"
  by (simp add: consume_def Let_def)

lemma consume_within_limit:
  assumes "consumed e \<le> limit a"
  shows "consumed (snd (consume a e requested amt now)) \<le> limit a"
  using assms by (simp add: consume_cases)

lemma consume_window_start:
  "window_start (snd (consume a e requested amt now)) =
     (if fst (consume a e requested amt now) = Ok \<and> reset_due a e now then now
      else window_start e)"
  by (simp add: consume_cases roll_window_def)

lemma entries_after_within_limit:
  "consumed e \<le> limit a \<Longrightarrow> \<forall>e' \<in> set (entries_after a e cs). consumed e' \<le> limit a"
proof (induction cs arbitrary: e)
  case Nil
  then show ?case by simp
next
  case (Cons c cs)
  obtain requested amt now where c: "c = (requested, amt, now)"
    by (cases c) auto
  have "consumed (snd (consume a e requested amt now)) \<le> limit a"
    using Cons.prems by (rule consume_within_limit)
  then show ?case
    using Cons.IH [of "snd (consume a e requested amt now)"] by (simp add: c Let_def)
qed

lemma resets_kept_bound:
  assumes "windowLength a = Some w"
  shows "window_start e + int (resets_kept a e cs) * int w \<le>
         window_start (last (e # entries_after a e cs))"
proof (induction cs arbitrary: e)
  case Nil
  then show ?case by simp
next
  case (Cons c cs)
  obtain requested amt now where c: "c = (requested, amt, now)"
    by (cases c) auto
  let ?e' = "snd (consume a e requested amt now)"
  let ?k = "if fst (consume a e requested amt now) = Ok \<and> reset_due a e now then 1 else (0::nat)"
  have step: "window_start e + int ?k * int w \<le> window_start ?e'"
    using assms by (simp add: consume_window_start reset_due_def)
  have ih: "window_start ?e' + int (resets_kept a ?e' cs) * int w \<le>
      window_start (last (?e' # entries_after a ?e' cs))"
    by (rule Cons.IH)
  have r: "resets_kept a e (c # cs) = ?k + resets_kept a ?e' cs"
    by (simp add: c Let_def split: prod.splits)
  have l: "last (e # entries_after a e (c # cs)) = last (?e' # entries_after a ?e' cs)"
    by (simp add: c Let_def)
  show ?case
    unfolding r l using step ih by (simp add: algebra_simps)
qed

lemma reset_kept_next_boundary:
  assumes "consume a e requested amt now = (Ok, e')" "reset_due a e now"
    "windowLength a = Some w"
  shows "window_start e' = now \<and> consumed e' = amt \<and>
         (\<forall>t. reset_due a e' t \<longleftrightarrow> now + int w \<le> t)"
  using assms by (auto simp add: consume_cases roll_window_def reset_due_def split: if_splits)

lemma daily_100_simps:
  "limit daily_100 = 100" "windowLength daily_100 = Some 86400"
  "scoped_destination daily_100 = None"
  by (simp_all add: daily_100_def)

subsection \<open>C2: the limit check of \<open>checkAndConsume\<close>\<close>

text \<open>
  Claim C2, against the ledger modelled from the specification. Take a call of
  \<open>checkAndConsume\<close> whose destination check passes, and let the current consumption be
  that of the entry located or created, after the reset of a window that has elapsed. If
  the current consumption plus the amount exceeds the limit, the call returns
  \<open>Rejected LimitExceeded\<close> and the ledger, so the entry with its \<open>consumed\<close> and
  \<open>window_start\<close>, is unchanged. Otherwise it returns \<open>Ok\<close> and the entry's \<open>consumed\<close>
  becomes the current consumption plus the amount.
\<close>

theorem checkAndConsume_limit:
  assumes "destination_matches a requested"
  shows
   "(limit a < consumed (roll_window a (locate_or_create L r a now) now) + amt \<longrightarrow>
       checkAndConsume L r a requested amt now = (Rejected LimitExceeded, L)) \<and>
    (consumed (roll_window a (locate_or_create L r a now) now) + amt \<le> limit a \<longrightarrow>
       checkAndConsume L r a requested amt now =
         (Ok, L((r, a) \<mapsto>
            (roll_window a (locate_or_create L r a now) now)
              \<lparr>consumed :=
                 consumed (roll_window a (locate_or_create L r a now) now) + amt\<rparr>)))"
  using assms by (simp add: checkAndConsume_def consume_cases)

lemma scenario_entries:
  "roll_window daily_100 (locate_or_create Map.empty 1 daily_100 0) 0 =
     \<lparr>consumed = 0, window_start = 0\<rparr>"
  "roll_window daily_100 (locate_or_create after_first 1 daily_100 100) 100 =
     \<lparr>consumed = 60, window_start = 0\<rparr>"
  "roll_window daily_100 (locate_or_create after_first 1 daily_100 86401) 86401 =
     \<lparr>consumed = 0, window_start = 86401\<rparr>"
  "destination_matches daily_100 None"
  by (simp_all add: roll_window_def locate_or_create_def reset_due_def after_first_def
      destination_matches_def daily_100_simps)

text \<open>
  Claim C2, witness: the scenario of the claim. Consuming 60 at time 0 succeeds;
  consuming 60 at time 100 is rejected and 60 stays consumed; consuming 60 at time 86401
  succeeds after the window is reset.
\<close>

theorem checkAndConsume_limit_witness:
  "checkAndConsume Map.empty 1 daily_100 None 60 0 = (Ok, after_first) \<and>
   checkAndConsume after_first 1 daily_100 None 60 100 = (Rejected LimitExceeded, after_first) \<and>
   checkAndConsume after_first 1 daily_100 None 60 86401 =
     (Ok, after_first((1, daily_100) \<mapsto> \<lparr>consumed = 60, window_start = 86401\<rparr>))"
proof -
  have 1: "checkAndConsume Map.empty 1 daily_100 None 60 0 = (Ok, after_first)"
    using checkAndConsume_limit [OF scenario_entries(4), of Map.empty 1 0 60]
    unfolding scenario_entries(1) after_first_def
    by (simp add: daily_100_simps)
  have 2: "checkAndConsume after_first 1 daily_100 None 60 100 =
      (Rejected LimitExceeded, after_first)"
    using checkAndConsume_limit [OF scenario_entries(4), of after_first 1 100 60]
    unfolding scenario_entries(2)
    by (simp add: daily_100_simps)
  have 3: "checkAndConsume after_first 1 daily_100 None 60 86401 =
      (Ok, after_first((1, daily_100) \<mapsto> \<lparr>consumed = 60, window_start = 86401\<rparr>))"
    using checkAndConsume_limit [OF scenario_entries(4), of after_first 1 86401 60]
    unfolding scenario_entries(3)
    by (simp add: daily_100_simps)
  from 1 2 3 show ?thesis by simp
qed

subsection \<open>C3: the invariant and the window reset over a sequence of calls\<close>

lemma window_start_le_last_time:
  assumes "sorted (map (\<lambda>c. snd (snd c)) cs)" "cs \<noteq> []"
    "window_start e \<le> snd (snd (hd cs))"
  shows "window_start (last (e # entries_after a e cs)) \<le> snd (snd (last cs))"
  using assms
proof (induction cs arbitrary: e)
  case Nil
  then show ?case by simp
next
  case (Cons c cs)
  obtain requested amt now where c: "c = (requested, amt, now)"
    by (cases c) auto
  let ?e' = "snd (consume a e requested amt now)"
  have ws: "window_start ?e' \<le> now"
    using Cons.prems(3) by (simp add: c consume_window_start)
  show ?case
  proof (cases cs)
    case Nil
    then show ?thesis using ws by (simp add: c Let_def)
  next
    case (Cons d ds)
    have "now \<le> snd (snd (hd cs))"
      using Cons.prems(1) Cons by (simp add: c)
    then have "window_start ?e' \<le> snd (snd (hd cs))"
      using ws by simp
    moreover have "sorted (map (\<lambda>c. snd (snd c)) cs)"
      using Cons.prems(1) by simp
    ultimately have "window_start (last (?e' # entries_after a ?e' cs)) \<le> snd (snd (last cs))"
      using Cons.IH [of ?e'] Cons by simp
    then show ?thesis using Cons by (simp add: c Let_def)
  qed
qed

lemma consume_no_reset:
  assumes "consume a e requested amt now = (Ok, e')" "\<not> reset_due a e now"
  shows "window_start e' = window_start e \<and> consumed e' = consumed e + amt"
  using assms by (auto simp add: consume_cases roll_window_def split: if_splits)

lemma checkAndConsume_entry:
  assumes "L (r, a) = Some e"
  shows "snd (checkAndConsume L r a requested amt now) (r, a) =
         Some (snd (consume a e requested amt now))"
  using assms
  by (simp add: checkAndConsume_def locate_or_create_def consume_cases)

lemma ledgers_after_entries:
  assumes "L (r, a) = Some e"
  shows "map (\<lambda>L'. L' (r, a)) (ledgers_after L r a cs) = map Some (entries_after a e cs)"
  using assms
proof (induction cs arbitrary: L e)
  case Nil
  then show ?case by simp
next
  case (Cons c cs)
  obtain requested amt now where c: "c = (requested, amt, now)"
    by (cases c) auto
  have "snd (checkAndConsume L r a requested amt now) (r, a) =
      Some (snd (consume a e requested amt now))"
    using Cons.prems by (rule checkAndConsume_entry)
  then show ?case
    using Cons.IH [of "snd (checkAndConsume L r a requested amt now)"
        "snd (consume a e requested amt now)"]
    by (simp add: c Let_def)
qed

text \<open>
  Claim C3, against the ledger modelled from the specification. Take a ledger with a
  recurring entry that is within its limit, and any sequence of \<open>checkAndConsume\<close> calls
  on it. The entry the ledger holds after each call is the one \<open>entries_after\<close> lists,
  and it is within its limit after every call. Every reset that is kept moves
  \<open>window_start\<close> forward by at least one window length, so with non-decreasing
  timestamps the number of resets times the window length is at most the time elapsed.
  A call that is accepted when the window has elapsed resets once, after which the
  window starts at the time of that call and no reset is due again before a full window
  length has passed; and a call accepted inside the window resets nothing.
\<close>

theorem recurring_window_invariant:
  assumes "L (r, a) = Some e" "consumed e \<le> limit a" "windowLength a = Some w"
  shows
   "map (\<lambda>L'. L' (r, a)) (ledgers_after L r a cs) = map Some (entries_after a e cs) \<and>
    (\<forall>e' \<in> set (entries_after a e cs). consumed e' \<le> limit a) \<and>
    window_start e + int (resets_kept a e cs) * int w \<le>
      window_start (last (e # entries_after a e cs)) \<and>
    (cs \<noteq> [] \<and> sorted (map (\<lambda>c. snd (snd c)) cs) \<and> window_start e \<le> snd (snd (hd cs)) \<longrightarrow>
       int (resets_kept a e cs) * int w \<le> snd (snd (last cs)) - window_start e) \<and>
    (\<forall>requested amt now e'.
       consume a e requested amt now = (Ok, e') \<and> reset_due a e now \<longrightarrow>
       window_start e' = now \<and> consumed e' = amt \<and>
       (\<forall>t. reset_due a e' t \<longleftrightarrow> now + int w \<le> t)) \<and>
    (\<forall>requested amt now e'.
       consume a e requested amt now = (Ok, e') \<and> \<not> reset_due a e now \<longrightarrow>
       window_start e' = window_start e \<and> consumed e' = consumed e + amt)"
proof (intro conjI)
  show "map (\<lambda>L'. L' (r, a)) (ledgers_after L r a cs) = map Some (entries_after a e cs)"
    using assms(1) by (rule ledgers_after_entries)
  show "\<forall>e' \<in> set (entries_after a e cs). consumed e' \<le> limit a"
    using assms(2) by (rule entries_after_within_limit)
  show b: "window_start e + int (resets_kept a e cs) * int w \<le>
      window_start (last (e # entries_after a e cs))"
    using assms(3) by (rule resets_kept_bound)
  show "cs \<noteq> [] \<and> sorted (map (\<lambda>c. snd (snd c)) cs) \<and> window_start e \<le> snd (snd (hd cs)) \<longrightarrow>
       int (resets_kept a e cs) * int w \<le> snd (snd (last cs)) - window_start e"
    using b window_start_le_last_time [of cs e a] by auto
  show "\<forall>requested amt now e'.
       consume a e requested amt now = (Ok, e') \<and> reset_due a e now \<longrightarrow>
       window_start e' = now \<and> consumed e' = amt \<and>
       (\<forall>t. reset_due a e' t \<longleftrightarrow> now + int w \<le> t)"
    using reset_kept_next_boundary [OF _ _ assms(3)] by blast
  show "\<forall>requested amt now e'.
       consume a e requested amt now = (Ok, e') \<and> \<not> reset_due a e now \<longrightarrow>
       window_start e' = window_start e \<and> consumed e' = consumed e + amt"
    using consume_no_reset by blast
qed

lemma daily_100_steps:
  "consume daily_100 \<lparr>consumed = 60, window_start = 0\<rparr> None 60 100 =
     (Rejected LimitExceeded, \<lparr>consumed = 60, window_start = 0\<rparr>)"
  "consume daily_100 \<lparr>consumed = 60, window_start = 0\<rparr> None 60 86401 =
     (Ok, \<lparr>consumed = 60, window_start = 86401\<rparr>)"
  "consume daily_100 \<lparr>consumed = 60, window_start = 86401\<rparr> None 30 86401 =
     (Ok, \<lparr>consumed = 90, window_start = 86401\<rparr>)"
  "reset_due daily_100 \<lparr>consumed = 60, window_start = 0\<rparr> 100 = False"
  "reset_due daily_100 \<lparr>consumed = 60, window_start = 0\<rparr> 86401 = True"
  "reset_due daily_100 \<lparr>consumed = 60, window_start = 86401\<rparr> 86401 = False"
  by (simp_all add: consume_cases roll_window_def reset_due_def destination_matches_def
      daily_100_simps)

lemma daily_100_run:
  "entries_after daily_100 \<lparr>consumed = 60, window_start = 0\<rparr>
     [(None, 60, 100), (None, 60, 86401), (None, 30, 86401)] =
     [\<lparr>consumed = 60, window_start = 0\<rparr>, \<lparr>consumed = 60, window_start = 86401\<rparr>,
      \<lparr>consumed = 90, window_start = 86401\<rparr>]"
  "resets_kept daily_100 \<lparr>consumed = 60, window_start = 0\<rparr>
     [(None, 60, 100), (None, 60, 86401), (None, 30, 86401)] = 1"
  by (simp_all add: daily_100_steps Let_def)

lemma after_first_entry:
  "after_first (1, daily_100) = Some \<lparr>consumed = 60, window_start = 0\<rparr>"
  by (simp add: after_first_def)

text \<open>
  Claim C3, witness: after 60 were consumed at time 0, three calls at times 100, 86401
  and 86401. One reset is kept, at time 86401; the second call at that time does not
  reset again, and 60 + 30 are consumed in the new window.
\<close>

theorem recurring_window_invariant_witness:
  "after_first (1, daily_100) = Some \<lparr>consumed = 60, window_start = 0\<rparr> \<and>
   consumed \<lparr>consumed = 60, window_start = 0\<rparr> \<le> limit daily_100 \<and>
   windowLength daily_100 = Some 86400 \<and>
   map (\<lambda>L'. L' (1, daily_100))
     (ledgers_after after_first 1 daily_100
        [(None, 60, 100), (None, 60, 86401), (None, 30, 86401)]) =
     [Some \<lparr>consumed = 60, window_start = 0\<rparr>, Some \<lparr>consumed = 60, window_start = 86401\<rparr>,
      Some \<lparr>consumed = 90, window_start = 86401\<rparr>] \<and>
   consumed \<lparr>consumed = 60, window_start = 86401\<rparr> \<le> limit daily_100 \<and>
   consumed \<lparr>consumed = 90, window_start = 86401\<rparr> \<le> limit daily_100 \<and>
   resets_kept daily_100 \<lparr>consumed = 60, window_start = 0\<rparr>
     [(None, 60, 100), (None, 60, 86401), (None, 30, 86401)] = 1 \<and>
   (0::int) + 1 * 86400 \<le> 86401"
  using recurring_window_invariant
    [of after_first 1 daily_100 "\<lparr>consumed = 60, window_start = 0\<rparr>" 86400
        "[(None, 60, 100), (None, 60, 86401), (None, 30, 86401)]"]
    after_first_entry
  unfolding daily_100_run
  by (simp add: daily_100_simps)

end
